theory Spec2Isabelle
  imports Main "HOL-Library.Sublist" "HOL-Library.Multiset"
begin

section \<open>The object store as the client sees it\<close>

text \<open>
  The plugin talks to the store through seven calls of the provider's SDK. A call is
  identified by its operation and the parameters the plugin puts into \<open>params\<close>.
\<close>

type_synonym path = string

text \<open>The document that \<open>configurePolicyForBucket\<close> builds and serialises.\<close>

record statement =
  Sid :: string
  Effect :: string
  Principal_AWS :: string
  Action :: string
  Resource :: string

record policy =
  Version :: string
  PolicyId :: string
  Statement :: "statement list"

datatype s3_call =
    ListBuckets
  | ListObjects string \<comment> \<open>Bucket\<close>
  | DeleteObjects string "string list" \<comment> \<open>Bucket, the Key of each entry of Delete.Objects\<close>
  | CreateBucket string \<comment> \<open>Bucket\<close>
  | PutBucketWebsite string string string \<comment> \<open>Bucket, IndexDocument.Suffix, ErrorDocument.Key\<close>
  | PutBucketPolicy string policy \<comment> \<open>Bucket, Policy (the document that \<open>JSON.stringify\<close> serialises)\<close>
  | PutObject string string "string option" string
      \<comment> \<open>Bucket, Key, Body (\<open>None\<close> is \<open>undefined\<close>), ContentType\<close>

text \<open>What a fulfilled call hands to the next handler: an object whose properties may be absent.\<close>

record bucket_entry =
  Name :: string

record object_entry =
  Key :: string
  ETag :: string
  Size :: nat

record s3_data =
  Buckets :: "bucket_entry list option"
  Contents :: "object_entry list option"

text \<open>
  The store itself is not part of the plugin: it is a parameter, a function from the
  store's state and a call to the outcome (an error code or data) and the next state.
\<close>

type_synonym 's s3 = "'s \<Rightarrow> s3_call \<Rightarrow> (string + s3_data) \<times> 's"

datatype error =
    ServerlessError string \<comment> \<open>\<open>new this.serverless.classes.Error(message)\<close>\<close>
  | StoreError string \<comment> \<open>a rejected SDK promise, with the provider's error code\<close>
  | TypeError \<comment> \<open>a property read on \<open>undefined\<close>\<close>

section \<open>The local directory\<close>

text \<open>
  What the filesystem answers for one directory entry: \<open>fs.stat\<close> fails or tells whether
  the entry is a directory, \<open>fs.readdir\<close> lists a directory or fails, \<open>fs.readFile\<close>
  returns the contents or fails.
\<close>

datatype entry =
    RegularFile string \<comment> \<open>not a directory; \<open>readFile\<close> yields the contents\<close>
  | UnreadableFile \<comment> \<open>not a directory; \<open>readFile\<close> fails\<close>
  | Directory "(string \<times> entry) list" \<comment> \<open>\<open>readdir\<close> yields the names\<close>
  | UnreadableDirectory \<comment> \<open>a directory; \<open>readdir\<close> fails\<close>
  | Unstatable \<comment> \<open>\<open>stat\<close> fails\<close>

section \<open>The process: pending operations and what has happened so far\<close>

text \<open>
  An operation that has been started and whose callback has not run yet. The filesystem
  does not change during a deployment, so a pending filesystem operation is kept together
  with the entry its path denotes.
\<close>

datatype task =
    Readdir path entry
  | Stat path entry
  | ReadFile path string entry \<comment> \<open>the path, the object key computed before the read, the entry\<close>
  | Put s3_call

datatype event =
    Request s3_call \<comment> \<open>the call has been sent\<close>
  | Settled s3_call "string option" \<comment> \<open>its promise is fulfilled (\<open>None\<close>) or rejected\<close>
  | UploadDirectoryCalled path
  | Uncaught error \<comment> \<open>an exception thrown inside a callback; the process ends\<close>

record 's world =
  remote :: 's
  events :: "event list"
  pending :: "task list"

text \<open>The fields of the \<open>Client\<close> object that the deployment reads and writes.\<close>

record Client =
  bucketName :: string
  clientPath :: path
  bucketExists :: bool

type_synonym ('a, 'st) promise = "'st \<Rightarrow> (error + 'a) \<times> 'st"

text \<open>\<open>p.then(f)\<close>: \<open>f\<close> runs once \<open>p\<close> is fulfilled; a rejection skips it.\<close>

definition then_do :: "('a, 'st) promise \<Rightarrow> ('a \<Rightarrow> ('b, 'st) promise) \<Rightarrow> ('b, 'st) promise" where
  "then_do p f st = (case p st of (Inl e, st') \<Rightarrow> (Inl e, st') | (Inr a, st') \<Rightarrow> f a st')"

text \<open>\<open>this.s3.op(params).promise()\<close>, awaited: the call is sent and its promise settles.\<close>

definition s3_request :: "'s s3 \<Rightarrow> s3_call \<Rightarrow> (s3_data, Client \<times> 's world) promise" where
  "s3_request api call = (\<lambda>(c, w).
     (case api (remote w) call of
        (Inl code, s') \<Rightarrow>
          (Inl (StoreError code),
           c, w\<lparr>remote := s', events := events w @ [Request call, Settled call (Some code)]\<rparr>)
      | (Inr data, s') \<Rightarrow>
          (Inr data,
           c, w\<lparr>remote := s', events := events w @ [Request call, Settled call None]\<rparr>)))"

section \<open>Reconciling the bucket\<close>

definition listBuckets :: "s3_data \<Rightarrow> (unit, Client \<times> 's world) promise" where
  "listBuckets data = (\<lambda>(c, w).
     (case Buckets data of
        None \<Rightarrow> (Inl TypeError, c, w)
      | Some bs \<Rightarrow>
          (Inr (),
           fold (\<lambda>bucket c. if Name bucket = bucketName c then c\<lparr>bucketExists := True\<rparr> else c) bs c,
           w)))"

definition listObjectsInBucket :: "'s s3 \<Rightarrow> (s3_data option, Client \<times> 's world) promise" where
  "listObjectsInBucket api = (\<lambda>(c, w).
     if \<not> bucketExists c then (Inr None, c, w)
     else then_do (s3_request api (ListObjects (bucketName c))) (\<lambda>data st. (Inr (Some data), st)) (c, w))"

definition deleteObjectsFromBucket ::
  "'s s3 \<Rightarrow> s3_data option \<Rightarrow> (unit, Client \<times> 's world) promise" where
  "deleteObjectsFromBucket api data = (\<lambda>(c, w).
     if \<not> bucketExists c then (Inr (), c, w)
     else
       (case data of
          None \<Rightarrow> (Inl TypeError, c, w)
        | Some d \<Rightarrow>
            (case Contents d of
               None \<Rightarrow> (Inl TypeError, c, w)
             | Some [] \<Rightarrow> (Inr (), c, w)
             | Some (content # contents) \<Rightarrow>
                 then_do (s3_request api (DeleteObjects (bucketName c) (map Key (content # contents))))
                   (\<lambda>_ st. (Inr (), st)) (c, w))))"

definition createBucket :: "'s s3 \<Rightarrow> (unit, Client \<times> 's world) promise" where
  "createBucket api = (\<lambda>(c, w).
     if bucketExists c then (Inr (), c, w)
     else then_do (s3_request api (CreateBucket (bucketName c))) (\<lambda>_ st. (Inr (), st)) (c, w))"

definition configureBucket :: "'s s3 \<Rightarrow> (unit, Client \<times> 's world) promise" where
  "configureBucket api = (\<lambda>(c, w).
     then_do (s3_request api (PutBucketWebsite (bucketName c) ''index.html'' ''error.html''))
       (\<lambda>_ st. (Inr (), st)) (c, w))"

definition bucketPolicy :: "string \<Rightarrow> policy" where
  "bucketPolicy name =
     \<lparr>Version = ''2008-10-17'',
      PolicyId = ''Policy1392681112290'',
      Statement =
        [\<lparr>Sid = ''Stmt1392681101677'',
          Effect = ''Allow'',
          Principal_AWS = ''*'',
          Action = ''s3:GetObject'',
          Resource = ''arn:aws:s3:::'' @ name @ ''/*''\<rparr>]\<rparr>"

definition configurePolicyForBucket :: "'s s3 \<Rightarrow> (unit, Client \<times> 's world) promise" where
  "configurePolicyForBucket api = (\<lambda>(c, w).
     then_do (s3_request api (PutBucketPolicy (bucketName c) (bucketPolicy (bucketName c))))
       (\<lambda>_ st. (Inr (), st)) (c, w))"

text \<open>
  \<open>_uploadDirectory\<close> starts \<open>fs.readdir\<close> through \<open>async.waterfall\<close> and returns
  \<open>undefined\<close> at once; everything else happens in callbacks.
\<close>

definition uploadDirectory :: "path \<Rightarrow> entry \<Rightarrow> 's world \<Rightarrow> 's world" where
  "uploadDirectory directoryPath dir w = w\<lparr>pending := pending w @ [Readdir directoryPath dir]\<rparr>"

text \<open>The six stages of \<open>_processDeployment\<close>, up to and without the upload.\<close>

definition reconcile :: "'s s3 \<Rightarrow> (unit, Client \<times> 's world) promise" where
  "reconcile api =
     then_do (then_do (then_do (then_do (then_do (then_do
       (s3_request api ListBuckets)
       listBuckets)
       (\<lambda>_. listObjectsInBucket api))
       (deleteObjectsFromBucket api))
       (\<lambda>_. createBucket api))
       (\<lambda>_. configureBucket api))
       (\<lambda>_. configurePolicyForBucket api)"

definition processDeployment :: "'s s3 \<Rightarrow> entry \<Rightarrow> (unit, Client \<times> 's world) promise" where
  "processDeployment api dist =
     then_do (reconcile api)
       (\<lambda>_ (c, w).
          (Inr (),
           c,
           uploadDirectory (clientPath c) dist
             (w\<lparr>events := events w @ [UploadDirectoryCalled (clientPath c)]\<rparr>)))"

section \<open>Validation and the deploy hook\<close>

text \<open>
  \<open>path.join\<close> of a normalised directory path and one plain name: the two joined by the
  platform's separator (\<open>/\<close> on POSIX, a backslash on Windows).
\<close>

definition path_join :: "char \<Rightarrow> path \<Rightarrow> string \<Rightarrow> path" where
  "path_join sep dir name = dir @ sep # name"

text \<open>
  What \<open>_validateAndPrepare\<close> reads from the host: \<open>config.servicePath\<close>, the answer of
  \<open>utils.dirExistsSync\<close>, and \<open>service.custom.client.bucketName\<close>, where each of
  \<open>custom\<close>, \<open>custom.client\<close> and \<open>bucketName\<close> may be \<open>undefined\<close>.
\<close>

record serverless =
  servicePath :: path
  dirExistsSync :: "path \<Rightarrow> bool"
  custom :: "string option option option"

definition MissingBuildOutput :: error where
  "MissingBuildOutput =
     ServerlessError (''Could not find '' @ [CHR 0x22] @ ''client/dist'' @ [CHR 0x22] @ '' folder in your project root.'')"

definition MissingConfiguration :: error where
  "MissingConfiguration = ServerlessError ''Please specify a bucket name for the client in serverless.yml.''"

definition validateAndPrepare :: "char \<Rightarrow> serverless \<Rightarrow> (unit, Client \<times> 's world) promise" where
  "validateAndPrepare sep sls = (\<lambda>(c, w).
     if \<not> dirExistsSync sls (path_join sep (path_join sep (servicePath sls) ''client'') ''dist'')
     then (Inl MissingBuildOutput, c, w)
     else
       (case custom sls of
          Some (Some (Some name)) \<Rightarrow>
            if name = [] then (Inl MissingConfiguration, c, w)
            else
              (Inr (),
               c\<lparr>bucketName := name,
                 clientPath := path_join sep (path_join sep (servicePath sls) ''client'') ''dist''\<rparr>,
               w)
        | _ \<Rightarrow> (Inl MissingConfiguration, c, w)))"

text \<open>The hook \<open>client:deploy:deploy\<close>: validation, then the deployment.\<close>

definition client_deploy_deploy ::
  "'s s3 \<Rightarrow> char \<Rightarrow> serverless \<Rightarrow> entry \<Rightarrow> (unit, Client \<times> 's world) promise" where
  "client_deploy_deploy api sep sls dist =
     then_do (validateAndPrepare sep sls) (\<lambda>_. processDeployment api dist)"

section \<open>Uploading the directory\<close>

text \<open>
  \<open>String.prototype.replace\<close> with a string pattern: the first occurrence of the pattern,
  and only that one, is replaced. (The replacements used here contain no \<open>$\<close>.)
\<close>

fun replace :: "string \<Rightarrow> string \<Rightarrow> string \<Rightarrow> string" where
  "replace pattern replacement [] = (if pattern = [] then replacement else [])"
| "replace pattern replacement (ch # s) =
     (if prefix pattern (ch # s) then replacement @ drop (length pattern) (ch # s)
      else ch # replace pattern replacement s)"

definition substr :: "nat \<Rightarrow> string \<Rightarrow> string" where
  "substr start s = drop start s"

definition backslash :: char where
  "backslash = CHR 0x5C"

text \<open>\<open>filePath.replace(clientPath, '').substr(1).replace('\\', '/')\<close> in \<open>_uploadFile\<close>.\<close>

definition fileKey :: "path \<Rightarrow> path \<Rightarrow> string" where
  "fileKey client_path filePath =
     replace [backslash] ''/'' (substr 1 (replace client_path [] filePath))"

text \<open>
  Modelled from the spec: \<open>mime.lookup\<close> belongs to a package that is not among the sources.
  The content type is resolved from the file's extension, the text after the last dot or
  separator of the path in lower case, by a lookup table that is a parameter here, with a
  generic binary type when the table has no entry.
\<close>

definition toLowerCase :: "string \<Rightarrow> string" where
  "toLowerCase s =
     map (\<lambda>ch. if 65 \<le> (of_char ch :: nat) \<and> (of_char ch :: nat) \<le> 90
               then char_of ((of_char ch :: nat) + 32) else ch) s"

definition extension :: "path \<Rightarrow> string" where
  "extension p =
     toLowerCase (rev (takeWhile (\<lambda>ch. ch \<noteq> CHR ''.'' \<and> ch \<noteq> CHR ''/'' \<and> ch \<noteq> backslash) (rev p)))"

definition mime_lookup :: "(string \<rightharpoonup> string) \<Rightarrow> path \<Rightarrow> string" where
  "mime_lookup types p =
     (case types (extension p) of Some media_type \<Rightarrow> media_type | None \<Rightarrow> ''application/octet-stream'')"

text \<open>The three filesystem calls, with \<open>None\<close> for a call that reports an error.\<close>

fun readdir :: "entry \<Rightarrow> (string \<times> entry) list option" where
  "readdir (Directory files) = Some files"
| "readdir _ = None"

fun stat_isDirectory :: "entry \<Rightarrow> bool option" where
  "stat_isDirectory (Directory _) = Some True"
| "stat_isDirectory UnreadableDirectory = Some True"
| "stat_isDirectory (RegularFile _) = Some False"
| "stat_isDirectory UnreadableFile = Some False"
| "stat_isDirectory Unstatable = None"

fun readFile :: "entry \<Rightarrow> string option" where
  "readFile (RegularFile contents) = Some contents"
| "readFile _ = None"

text \<open>
  \<open>_uploadFile\<close> computes the key and starts \<open>fs.readFile\<close>; its callback, which ignores
  \<open>err\<close>, sends the object with whatever \<open>fileBuffer\<close> is.
\<close>

definition uploadFile :: "Client \<Rightarrow> path \<Rightarrow> entry \<Rightarrow> 's world \<Rightarrow> 's world" where
  "uploadFile c filePath file w =
     w\<lparr>pending := pending w @ [ReadFile filePath (fileKey (clientPath c) filePath) file]\<rparr>"

text \<open>
  The callback of a pending operation, run when the operation completes.
  \<^item> \<open>readdir\<close>: on an error \<open>async.waterfall\<close> hands it to a final callback that is not
    there; otherwise \<open>async.each\<close> starts \<open>fs.stat\<close> for every joined path, all at once.
  \<^item> \<open>stat\<close>: \<open>err\<close> is not looked at; \<open>stats.isDirectory()\<close> throws when \<open>stats\<close> is
    \<open>undefined\<close>, and an exception thrown in a callback ends the process.
  \<^item> \<open>readFile\<close>: \<open>putObject\<close> is sent; nothing is attached to its promise.
  \<^item> the sent \<open>putObject\<close>: the store answers and the promise settles unobserved.
\<close>

fun callback :: "'s s3 \<Rightarrow> char \<Rightarrow> (string \<rightharpoonup> string) \<Rightarrow> Client \<Rightarrow> task \<Rightarrow> 's world \<Rightarrow> 's world" where
  "callback api sep types c (Readdir directoryPath dir) w =
     (case readdir dir of
        None \<Rightarrow> w
      | Some files \<Rightarrow>
          w\<lparr>pending := pending w @ map (\<lambda>(file, e). Stat (path_join sep directoryPath file) e) files\<rparr>)"
| "callback api sep types c (Stat p e) w =
     (case stat_isDirectory e of
        None \<Rightarrow> w\<lparr>events := events w @ [Uncaught TypeError], pending := []\<rparr>
      | Some True \<Rightarrow> uploadDirectory p e w
      | Some False \<Rightarrow> uploadFile c p e w)"
| "callback api sep types c (ReadFile filePath key file) w =
     (let params = PutObject (bucketName c) key (readFile file) (mime_lookup types filePath)
      in w\<lparr>events := events w @ [Request params], pending := pending w @ [Put params]\<rparr>)"
| "callback api sep types c (Put call) w =
     (case api (remote w) call of
        (Inl code, s') \<Rightarrow> w\<lparr>remote := s', events := events w @ [Settled call (Some code)]\<rparr>
      | (Inr _, s') \<Rightarrow> w\<lparr>remote := s', events := events w @ [Settled call None]\<rparr>)"

text \<open>
  The event loop: any pending operation may complete next. \<open>step i\<close> completes the
  \<open>i\<close>-th one; a schedule is the list of these choices.
\<close>

definition step :: "'s s3 \<Rightarrow> char \<Rightarrow> (string \<rightharpoonup> string) \<Rightarrow> Client \<Rightarrow> nat \<Rightarrow> 's world \<Rightarrow> 's world option" where
  "step api sep types c i w =
     (if i < length (pending w)
      then Some (callback api sep types c (pending w ! i)
                   (w\<lparr>pending := take i (pending w) @ drop (Suc i) (pending w)\<rparr>))
      else None)"

fun run :: "'s s3 \<Rightarrow> char \<Rightarrow> (string \<rightharpoonup> string) \<Rightarrow> Client \<Rightarrow> nat list \<Rightarrow> 's world \<Rightarrow> 's world option" where
  "run api sep types c [] w = Some w"
| "run api sep types c (i # schedule) w =
     (case step api sep types c i w of
        None \<Rightarrow> None
      | Some w' \<Rightarrow> run api sep types c schedule w')"

text \<open>The regular files below a path, each with its path and contents.\<close>

fun regular_files :: "char \<Rightarrow> path \<Rightarrow> entry \<Rightarrow> (path \<times> string) list" where
  "regular_files sep p (RegularFile contents) = [(p, contents)]"
| "regular_files sep p (Directory files) =
     concat (map (\<lambda>(name, e). regular_files sep (path_join sep p name) e) files)"
| "regular_files sep p _ = []"

text \<open>A tree of directories and regular files on which every filesystem call succeeds.\<close>

fun readable :: "entry \<Rightarrow> bool" where
  "readable (RegularFile _) = True"
| "readable (Directory files) = list_all (\<lambda>(name, e). readable e) files"
| "readable _ = False"

text \<open>A tree on which every \<open>stat\<close> succeeds.\<close>

fun statable :: "entry \<Rightarrow> bool" where
  "statable (Directory files) = list_all (\<lambda>(name, e). statable e) files"
| "statable Unstatable = False"
| "statable _ = True"

text \<open>
  The \<open>putObject\<close> calls that are still to come from an entry whose \<open>stat\<close> is pending,
  and from a pending operation.
\<close>

fun puts_below :: "(string \<rightharpoonup> string) \<Rightarrow> char \<Rightarrow> Client \<Rightarrow> path \<Rightarrow> entry \<Rightarrow> s3_call list" where
  "puts_below types sep c p (Directory files) =
     concat (map (\<lambda>(name, e). puts_below types sep c (path_join sep p name) e) files)"
| "puts_below types sep c p UnreadableDirectory = []"
| "puts_below types sep c p Unstatable = []"
| "puts_below types sep c p file =
     [PutObject (bucketName c) (fileKey (clientPath c) p) (readFile file) (mime_lookup types p)]"

fun owed :: "(string \<rightharpoonup> string) \<Rightarrow> char \<Rightarrow> Client \<Rightarrow> task \<Rightarrow> s3_call list" where
  "owed types sep c (Readdir p dir) =
     (case readdir dir of
        None \<Rightarrow> []
      | Some files \<Rightarrow> concat (map (\<lambda>(name, e). puts_below types sep c (path_join sep p name) e) files))"
| "owed types sep c (Stat p e) = puts_below types sep c p e"
| "owed types sep c (ReadFile p key file) =
     [PutObject (bucketName c) key (readFile file) (mime_lookup types p)]"
| "owed types sep c (Put _) = []"

fun crash_free :: "task \<Rightarrow> bool" where
  "crash_free (Readdir _ dir) = statable dir"
| "crash_free (Stat _ e) = statable e"
| "crash_free _ = True"

text \<open>The callbacks that an entry whose \<open>stat\<close> is pending, and a pending operation, still lead to.\<close>

fun cost :: "entry \<Rightarrow> nat" where
  "cost (Directory files) = 2 + sum_list (map (\<lambda>(name, e). cost e) files)"
| "cost UnreadableDirectory = 2"
| "cost Unstatable = 1"
| "cost _ = 3"

fun work :: "task \<Rightarrow> nat" where
  "work (Readdir _ dir) =
     (case readdir dir of None \<Rightarrow> 1 | Some files \<Rightarrow> 1 + sum_list (map (\<lambda>(name, e). cost e) files))"
| "work (Stat _ e) = cost e"
| "work (ReadFile _ _ _) = 2"
| "work (Put _) = 1"

section \<open>Reading a run\<close>

text \<open>The calls sent, in the order of sending.\<close>

fun requests :: "event list \<Rightarrow> s3_call list" where
  "requests [] = []"
| "requests (Request call # es) = call # requests es"
| "requests (_ # es) = requests es"

fun is_ListObjects :: "s3_call \<Rightarrow> bool" where
  "is_ListObjects (ListObjects _) = True"
| "is_ListObjects _ = False"

fun is_DeleteObjects :: "s3_call \<Rightarrow> bool" where
  "is_DeleteObjects (DeleteObjects _ _) = True"
| "is_DeleteObjects _ = False"

fun is_CreateBucket :: "s3_call \<Rightarrow> bool" where
  "is_CreateBucket (CreateBucket _) = True"
| "is_CreateBucket _ = False"

fun is_PutObject :: "s3_call \<Rightarrow> bool" where
  "is_PutObject (PutObject _ _ _ _) = True"
| "is_PutObject _ = False"

text \<open>The place of a call in the order the specification gives.\<close>

fun stage :: "s3_call \<Rightarrow> nat" where
  "stage ListBuckets = 1"
| "stage (ListObjects _) = 2"
| "stage (DeleteObjects _ _) = 3"
| "stage (CreateBucket _) = 4"
| "stage (PutBucketWebsite _ _ _) = 5"
| "stage (PutBucketPolicy _ _) = 6"
| "stage (PutObject _ _ _ _) = 8"

fun rank :: "event \<Rightarrow> nat" where
  "rank (Request call) = 2 * stage call"
| "rank (Settled call _) = 2 * stage call + 1"
| "rank (UploadDirectoryCalled _) = 14"
| "rank (Uncaught _) = 15"

text \<open>
  A run in which every call is awaited: each request is followed at once by its own
  settlement, and nothing follows a rejection.
\<close>

fun awaited :: "event list \<Rightarrow> bool" where
  "awaited [] = True"
| "awaited (Request call # Settled call' out # es) =
     (call = call' \<and> (out = None \<or> es = []) \<and> awaited es)"
| "awaited (UploadDirectoryCalled _ # es) = (es = [])"
| "awaited _ = False"

section \<open>A store to run against\<close>

text \<open>
  Modelled from the spec: the remote store is a service, not code of the plugin. Its
  section on external interfaces names the operations; here a bucket is a listing of
  objects, a website configuration and a policy, \<open>listObjects\<close> lists every object of the
  bucket, \<open>deleteObjects\<close> removes the keys it is given, and an operation on a bucket that
  does not exist is rejected.
\<close>

record bucket_state =
  objects :: "(string \<times> string option \<times> string) list" \<comment> \<open>key, body, content type\<close>
  website :: "(string \<times> string) option" \<comment> \<open>index document, error document\<close>
  access_policy :: "policy option"

record store =
  names :: "string list" \<comment> \<open>the buckets that exist\<close>
  state :: "string \<Rightarrow> bucket_state"

definition empty_bucket :: bucket_state where
  "empty_bucket = \<lparr>objects = [], website = None, access_policy = None\<rparr>"

definition on_bucket :: "string \<Rightarrow> (bucket_state \<Rightarrow> bucket_state) \<Rightarrow> store \<Rightarrow> (string + s3_data) \<times> store" where
  "on_bucket b f s =
     (if b \<in> set (names s)
      then (Inr \<lparr>Buckets = None, Contents = None\<rparr>, s\<lparr>state := (state s)(b := f (state s b))\<rparr>)
      else (Inl ''NoSuchBucket'', s))"

definition body_size :: "string option \<Rightarrow> nat" where
  "body_size body = (case body of None \<Rightarrow> 0 | Some bytes \<Rightarrow> length bytes)"

fun store_api :: "store s3" where
  "store_api s ListBuckets =
     (Inr \<lparr>Buckets = Some (map (\<lambda>b. \<lparr>Name = b\<rparr>) (names s)), Contents = None\<rparr>, s)"
| "store_api s (ListObjects b) =
     (if b \<in> set (names s)
      then (Inr \<lparr>Buckets = None,
                 Contents = Some (map (\<lambda>(k, body, _). \<lparr>Key = k, ETag = [], Size = body_size body\<rparr>)
                                   (objects (state s b)))\<rparr>, s)
      else (Inl ''NoSuchBucket'', s))"
| "store_api s (DeleteObjects b keys) =
     on_bucket b (\<lambda>st. st\<lparr>objects := filter (\<lambda>(k, _). k \<notin> set keys) (objects st)\<rparr>) s"
| "store_api s (CreateBucket b) =
     (if b \<in> set (names s) then (Inl ''BucketAlreadyOwnedByYou'', s)
      else (Inr \<lparr>Buckets = None, Contents = None\<rparr>,
            s\<lparr>names := names s @ [b], state := (state s)(b := empty_bucket)\<rparr>))"
| "store_api s (PutBucketWebsite b index_document error_document) =
     on_bucket b (\<lambda>st. st\<lparr>website := Some (index_document, error_document)\<rparr>) s"
| "store_api s (PutBucketPolicy b document) =
     on_bucket b (\<lambda>st. st\<lparr>access_policy := Some document\<rparr>) s"
| "store_api s (PutObject b k body content_type) =
     on_bucket b (\<lambda>st. st\<lparr>objects := filter (\<lambda>(k', _). k' \<noteq> k) (objects st) @ [(k, body, content_type)]\<rparr>) s"

text \<open>The state of a bucket that the reconciliation aims at.\<close>

definition configured :: "string \<Rightarrow> store \<Rightarrow> bool" where
  "configured b s =
     (b \<in> set (names s) \<and> objects (state s b) = [] \<and>
      website (state s b) = Some (''index.html'', ''error.html'') \<and>
      access_policy (state s b) = Some (bucketPolicy b))"

text \<open>How a settled promise shows in the log.\<close>

definition outcome :: "error + 'a \<Rightarrow> string option" where
  "outcome r = (case r of Inl (StoreError code) \<Rightarrow> Some code | _ \<Rightarrow> None)"

text \<open>One awaited call, seen from outside: what it adds to the log and what the store answered.\<close>

definition responded :: "'s s3 \<Rightarrow> s3_call \<Rightarrow> 's world \<Rightarrow> error + 'a \<Rightarrow> 's world \<Rightarrow> bool" where
  "responded api call w r w' =
     (pending w' = pending w \<and>
      events w' = events w @ [Request call, Settled call (outcome r)] \<and>
      (case r of
         Inl e \<Rightarrow> \<exists>code. e = StoreError code \<and> api (remote w) call = (Inl code, remote w')
       | Inr _ \<Rightarrow> \<exists>data. api (remote w) call = (Inr data, remote w')))"

text \<open>The \<open>putObject\<close> calls sent, in the order of sending.\<close>

definition puts_sent :: "event list \<Rightarrow> s3_call list" where
  "puts_sent es = filter is_PutObject (requests es)"

text \<open>The call that the upload sends for the file at a path, given what the read returned.\<close>

definition putObject_for :: "(string \<rightharpoonup> string) \<Rightarrow> Client \<Rightarrow> path \<Rightarrow> string option \<Rightarrow> s3_call" where
  "putObject_for types c filePath body =
     PutObject (bucketName c) (fileKey (clientPath c) filePath) body (mime_lookup types filePath)"

text \<open>The paths of the files below a path that cannot be read.\<close>

fun unreadable_files :: "char \<Rightarrow> path \<Rightarrow> entry \<Rightarrow> path list" where
  "unreadable_files sep p UnreadableFile = [p]"
| "unreadable_files sep p (Directory files) =
     concat (map (\<lambda>(name, e). unreadable_files sep (path_join sep p name) e) files)"
| "unreadable_files sep p _ = []"

text \<open>A stage that keeps the client's names and sends no \<open>putObject\<close> and starts nothing.\<close>

definition quiet :: "Client \<times> 's world \<Rightarrow> Client \<times> 's world \<Rightarrow> bool" where
  "quiet st st' =
     (bucketName (fst st') = bucketName (fst st) \<and> clientPath (fst st') = clientPath (fst st) \<and>
      pending (snd st') = pending (snd st) \<and> puts_sent (events (snd st')) = puts_sent (events (snd st)))"

section \<open>A deployment to look at\<close>

text \<open>The bucket \<open>my-bucket\<close> exists and holds two objects of an earlier deployment.\<close>

definition demo_store :: store where
  "demo_store =
     \<lparr>names = [''logs'', ''my-bucket''],
      state = (\<lambda>_. empty_bucket)
        (''my-bucket'' :=
           \<lparr>objects = [(''old.txt'', Some ''old'', ''text/plain''),
                       (''stale.js'', Some ''stale'', ''application/javascript'')],
            website = None, access_policy = None\<rparr>)\<rparr>"

definition demo_world :: "store world" where
  "demo_world = \<lparr>remote = demo_store, events = [], pending = []\<rparr>"

definition demo_client :: Client where
  "demo_client = \<lparr>bucketName = ''my-bucket'', clientPath = ''/srv/client/dist'', bucketExists = False\<rparr>"

definition demo_dist :: entry where
  "demo_dist =
     Directory
       [(''index.html'', RegularFile ''<html>''),
        (''error.html'', RegularFile ''<p>''),
        (''css'', Directory [(''app.css'', RegularFile ''body{}'')])]"

definition demo_serverless :: "bool \<Rightarrow> string option option option \<Rightarrow> serverless" where
  "demo_serverless built settings =
     \<lparr>servicePath = ''/srv'', dirExistsSync = (\<lambda>p. built \<and> p = ''/srv/client/dist''), custom = settings\<rparr>"

definition demo_types :: "string \<rightharpoonup> string" where
  "demo_types =
     [''html'' \<mapsto> ''text/html'', ''css'' \<mapsto> ''text/css'', ''js'' \<mapsto> ''application/javascript'']"

section \<open>Properties of the reconciliation\<close>

lemma requests_append: "requests (xs @ ys) = requests xs @ requests ys"
  by (induction xs rule: requests.induct) auto

lemma fold_listBuckets:
  "fold (\<lambda>bucket c. if Name bucket = bucketName c then c\<lparr>bucketExists := True\<rparr> else c) bs c =
   c\<lparr>bucketExists := bucketExists c \<or> bucketName c \<in> Name ` set bs\<rparr>"
  by (induction bs arbitrary: c) auto

lemma then_doE:
  assumes "then_do p f st = (r, st')"
  obtains (rejected) e where "p st = (Inl e, st')" and "r = Inl e"
  | (fulfilled) a st1 where "p st = (Inr a, st1)" and "f a st1 = (r, st')"
  using assms by (auto simp: then_do_def split: prod.splits sum.splits)

lemma outcome_simps [simp]: "outcome (Inr a) = None" "outcome (Inl (StoreError code)) = Some code"
  by (simp_all add: outcome_def)

lemma s3_request_spec:
  "s3_request api call (c, w) = (r, c', w') \<Longrightarrow>
   c' = c \<and> responded api call w r w' \<and>
   (case r of Inl _ \<Rightarrow> True | Inr data \<Rightarrow> api (remote w) call = (Inr data, remote w'))"
  by (auto simp: s3_request_def responded_def split: prod.splits sum.splits)

lemma listBuckets_spec:
  "listBuckets data (c, w) = (r, c', w') \<Longrightarrow>
   w' = w \<and> bucketName c' = bucketName c \<and> clientPath c' = clientPath c \<and>
   (case Buckets data of
      None \<Rightarrow> r = Inl TypeError \<and> c' = c
    | Some bs \<Rightarrow> r = Inr () \<and> bucketExists c' = (bucketExists c \<or> bucketName c \<in> Name ` set bs))"
  by (auto simp: listBuckets_def fold_listBuckets split: option.splits)

lemma listObjectsInBucket_spec:
  "listObjectsInBucket api (c, w) = (r, c', w') \<Longrightarrow>
   c' = c \<and>
   (if bucketExists c
    then responded api (ListObjects (bucketName c)) w r w' \<and>
         (case r of Inl _ \<Rightarrow> True
          | Inr d \<Rightarrow> \<exists>data. d = Some data \<and> api (remote w) (ListObjects (bucketName c)) = (Inr data, remote w'))
    else r = Inr None \<and> w' = w)"
  by (auto simp: listObjectsInBucket_def responded_def elim!: then_doE dest!: s3_request_spec split: if_splits)

lemma deleteObjectsFromBucket_spec:
  "deleteObjectsFromBucket api data (c, w) = (r, c', w') \<Longrightarrow>
   c' = c \<and>
   (if \<not> bucketExists c then r = Inr () \<and> w' = w
    else case data of
      None \<Rightarrow> r = Inl TypeError \<and> w' = w
    | Some d \<Rightarrow>
      (case Contents d of
         None \<Rightarrow> r = Inl TypeError \<and> w' = w
       | Some [] \<Rightarrow> r = Inr () \<and> w' = w
       | Some (x # xs) \<Rightarrow> responded api (DeleteObjects (bucketName c) (map Key (x # xs))) w r w'))"
  by (auto simp: deleteObjectsFromBucket_def responded_def elim!: then_doE dest!: s3_request_spec
      split: if_splits option.splits list.splits)

lemma createBucket_spec:
  "createBucket api (c, w) = (r, c', w') \<Longrightarrow>
   c' = c \<and>
   (if bucketExists c then r = Inr () \<and> w' = w
    else responded api (CreateBucket (bucketName c)) w r w')"
  by (auto simp: createBucket_def responded_def elim!: then_doE dest!: s3_request_spec split: if_splits)

lemma configureBucket_spec:
  "configureBucket api (c, w) = (r, c', w') \<Longrightarrow>
   c' = c \<and> responded api (PutBucketWebsite (bucketName c) ''index.html'' ''error.html'') w r w'"
  by (auto simp: configureBucket_def responded_def elim!: then_doE dest!: s3_request_spec)

lemma configurePolicyForBucket_spec:
  "configurePolicyForBucket api (c, w) = (r, c', w') \<Longrightarrow>
   c' = c \<and> responded api (PutBucketPolicy (bucketName c) (bucketPolicy (bucketName c))) w r w'"
  by (auto simp: configurePolicyForBucket_def responded_def elim!: then_doE dest!: s3_request_spec)

lemmas stage_specs = s3_request_spec listBuckets_spec listObjectsInBucket_spec
  deleteObjectsFromBucket_spec createBucket_spec configureBucket_spec configurePolicyForBucket_spec

lemmas reconcile_defs = reconcile_def then_do_def s3_request_def listBuckets_def listObjectsInBucket_def
  deleteObjectsFromBucket_def createBucket_def configureBucket_def configurePolicyForBucket_def

lemma reconcile_fulfilled:
  assumes "reconcile api (c, w) = (Inr (), c', w')"
  obtains data s1 bs s2 d3 s3 d4 where
    "api (remote w) ListBuckets = (Inr data, s1)" and "Buckets data = Some bs" and
    "bucketName c' = bucketName c" and
    "bucketExists c' = (bucketExists c \<or> bucketName c \<in> Name ` set bs)" and
    "if bucketExists c'
     then \<exists>d s contents. api s1 (ListObjects (bucketName c)) = (Inr d, s) \<and> Contents d = Some contents \<and>
            (if contents = [] then s2 = s
             else \<exists>d'. api s (DeleteObjects (bucketName c) (map Key contents)) = (Inr d', s2))
     else \<exists>d. api s1 (CreateBucket (bucketName c)) = (Inr d, s2)" and
    "api s2 (PutBucketWebsite (bucketName c) ''index.html'' ''error.html'') = (Inr d3, s3)" and
    "api s3 (PutBucketPolicy (bucketName c) (bucketPolicy (bucketName c))) = (Inr d4, remote w')"
proof -
  from assms obtain a1 c1 w1 c2 w2 a3 c3 w3 c4 w4 c5 w5 c6 w6 where
    1: "s3_request api ListBuckets (c, w) = (Inr a1, c1, w1)" and
    2: "listBuckets a1 (c1, w1) = (Inr (), c2, w2)" and
    3: "listObjectsInBucket api (c2, w2) = (Inr a3, c3, w3)" and
    4: "deleteObjectsFromBucket api a3 (c3, w3) = (Inr (), c4, w4)" and
    5: "createBucket api (c4, w4) = (Inr (), c5, w5)" and
    6: "configureBucket api (c5, w5) = (Inr (), c6, w6)" and
    7: "configurePolicyForBucket api (c6, w6) = (Inr (), c', w')"
    unfolding reconcile_def by (fastforce elim!: then_doE)
  note s1 = s3_request_spec[OF 1] and s2 = listBuckets_spec[OF 2] and s3 = listObjectsInBucket_spec[OF 3]
    and s4 = deleteObjectsFromBucket_spec[OF 4] and s5 = createBucket_spec[OF 5]
    and s6 = configureBucket_spec[OF 6] and s7 = configurePolicyForBucket_spec[OF 7]
  from s1 have c1: "c1 = c" and lb: "api (remote w) ListBuckets = (Inr a1, remote w1)" by simp_all
  from s2 obtain bs where bs: "Buckets a1 = Some bs" and w2: "w2 = w1" and n2: "bucketName c2 = bucketName c"
    and e2: "bucketExists c2 = (bucketExists c \<or> bucketName c \<in> Name ` set bs)"
    unfolding c1 by (auto split: option.splits)
  from s3 s4 s5 s6 s7 have cs: "c3 = c2" "c4 = c2" "c5 = c2" "c6 = c2" "c' = c2" by simp_all
  have emptied: "if bucketExists c2
     then \<exists>d s contents. api (remote w1) (ListObjects (bucketName c)) = (Inr d, s) \<and> Contents d = Some contents \<and>
            (if contents = [] then remote w5 = s
             else \<exists>d'. api s (DeleteObjects (bucketName c) (map Key contents)) = (Inr d', remote w5))
     else \<exists>d. api (remote w1) (CreateBucket (bucketName c)) = (Inr d, remote w5)"
  proof (cases "bucketExists c2")
    case True
    with s3 obtain d where a3: "a3 = Some d" and lo: "api (remote w1) (ListObjects (bucketName c)) = (Inr d, remote w3)"
      unfolding w2 n2 by auto
    from True s5 cs have w5: "w5 = w4" by simp
    from True s4 a3 cs obtain contents where co: "Contents d = Some contents"
      by (auto split: option.splits)
    show ?thesis
    proof (cases contents)
      case Nil
      with True s4 a3 co cs have "w4 = w3" by simp
      with True lo co Nil w5 show ?thesis by auto
    next
      case (Cons x xs)
      with True s4 a3 co cs n2
      have "\<exists>d'. api (remote w3) (DeleteObjects (bucketName c) (map Key contents)) = (Inr d', remote w4)"
        by (auto simp: responded_def)
      with True lo co Cons w5 show ?thesis by auto
    qed
  next
    case False
    with s3 have "w3 = w2" by simp
    moreover from False s4 cs have "w4 = w3" by simp
    moreover from False s5 cs n2 have "\<exists>d. api (remote w4) (CreateBucket (bucketName c)) = (Inr d, remote w5)"
      by (auto simp: responded_def)
    ultimately show ?thesis using False w2 by simp
  qed
  from s6 cs n2 obtain d3 where
    ws: "api (remote w5) (PutBucketWebsite (bucketName c) ''index.html'' ''error.html'') = (Inr d3, remote w6)"
    by (auto simp: responded_def)
  from s7 cs n2 obtain d4 where
    po: "api (remote w6) (PutBucketPolicy (bucketName c) (bucketPolicy (bucketName c))) = (Inr d4, remote w')"
    by (auto simp: responded_def)
  from that[OF lb bs _ _ _ ws po] cs n2 e2 emptied show thesis by simp
qed

lemma fulfils_create:
  assumes "api (remote w) ListBuckets = (Inr data, s1)" and "Buckets data = Some bs"
    and "\<not> bucketExists c" and "bucketName c \<notin> Name ` set bs"
    and "api s1 (CreateBucket (bucketName c)) = (Inr d, s2)"
    and "api s2 (PutBucketWebsite (bucketName c) ''index.html'' ''error.html'') = (Inr d3, s3)"
    and "api s3 (PutBucketPolicy (bucketName c) (bucketPolicy (bucketName c))) = (Inr d4, s4)"
  shows "\<exists>c' w'. reconcile api (c, w) = (Inr (), c', w') \<and> remote w' = s4"
  using assms by (simp add: reconcile_defs fold_listBuckets)

lemma fulfils_keep:
  assumes "api (remote w) ListBuckets = (Inr data, s1)" and "Buckets data = Some bs"
    and "bucketExists c \<or> bucketName c \<in> Name ` set bs"
    and "api s1 (ListObjects (bucketName c)) = (Inr d, s2)" and "Contents d = Some []"
    and "api s2 (PutBucketWebsite (bucketName c) ''index.html'' ''error.html'') = (Inr d3, s3)"
    and "api s3 (PutBucketPolicy (bucketName c) (bucketPolicy (bucketName c))) = (Inr d4, s4)"
  shows "\<exists>c' w'. reconcile api (c, w) = (Inr (), c', w') \<and> remote w' = s4"
  using assms by (simp add: reconcile_defs fold_listBuckets)

lemma fulfils_drain:
  assumes "api (remote w) ListBuckets = (Inr data, s1)" and "Buckets data = Some bs"
    and "bucketExists c \<or> bucketName c \<in> Name ` set bs"
    and "api s1 (ListObjects (bucketName c)) = (Inr d, s)" and "Contents d = Some (x # xs)"
    and "api s (DeleteObjects (bucketName c) (map Key (x # xs))) = (Inr d', s2)"
    and "api s2 (PutBucketWebsite (bucketName c) ''index.html'' ''error.html'') = (Inr d3, s3)"
    and "api s3 (PutBucketPolicy (bucketName c) (bucketPolicy (bucketName c))) = (Inr d4, s4)"
  shows "\<exists>c' w'. reconcile api (c, w) = (Inr (), c', w') \<and> remote w' = s4"
  using assms by (simp add: reconcile_defs fold_listBuckets)

lemma flag_after_discovery:
  assumes "reconcile api (c, w) = (r, c', w')"
    and "api (remote w) ListBuckets = (Inr data, s1)" and "Buckets data = Some bs"
  shows "bucketExists c' = (bucketExists c \<or> bucketName c \<in> Name ` set bs)"
  using assms unfolding reconcile_def
  by (auto elim!: then_doE dest!: stage_specs simp: responded_def split: option.splits list.splits)

text \<open>
  Claim C7. Once the bucket listing has arrived, \<open>bucketExists\<close> holds after the
  reconciliation exactly when it held before or the listing has a bucket whose name is
  \<open>bucketName\<close>; on a fresh \<open>Client\<close>, whose flag is unset, exactly when the listing has
  such a bucket. The only create-bucket call is the one for \<open>bucketName\<close>, and it is sent
  exactly when the flag is false.
\<close>

theorem discover_then_create:
  assumes "reconcile api (c, w) = (r, c', w')"
    and "api (remote w) ListBuckets = (Inr data, s1)" and "Buckets data = Some bs"
  shows "bucketExists c' = (bucketExists c \<or> bucketName c \<in> Name ` set bs) \<and>
    (\<exists>es. events w' = events w @ es \<and>
       filter is_CreateBucket (requests es) = (if bucketExists c' then [] else [CreateBucket (bucketName c)]))"
  using assms unfolding reconcile_def
  by (auto elim!: then_doE dest!: stage_specs simp: responded_def split: option.splits list.splits)

text \<open>The theorem of claim C7 at the deployment of the example.\<close>

lemma demo_ListBuckets:
  "store_api (remote demo_world) ListBuckets =
     (Inr \<lparr>Buckets = Some [\<lparr>Name = ''logs''\<rparr>, \<lparr>Name = ''my-bucket''\<rparr>], Contents = None\<rparr>, demo_store)"
  by (simp add: demo_world_def demo_store_def)

lemma demo_ListObjects:
  "store_api demo_store (ListObjects ''my-bucket'') =
     (Inr \<lparr>Buckets = None,
           Contents = Some [\<lparr>Key = ''old.txt'', ETag = [], Size = 3\<rparr>, \<lparr>Key = ''stale.js'', ETag = [], Size = 5\<rparr>]\<rparr>,
      demo_store)"
  by (simp add: demo_store_def body_size_def)

theorem discover_then_create_witness:
  "bucketExists (fst (snd (reconcile store_api (demo_client, demo_world)))) \<and>
   (\<exists>es. events (snd (snd (reconcile store_api (demo_client, demo_world)))) = events demo_world @ es \<and>
      filter is_CreateBucket (requests es) = [])"
proof -
  obtain r c' w' where run: "reconcile store_api (demo_client, demo_world) = (r, c', w')"
    by (cases "reconcile store_api (demo_client, demo_world)")
  have bs: "Buckets \<lparr>Buckets = Some [\<lparr>Name = ''logs''\<rparr>, \<lparr>Name = ''my-bucket''\<rparr>], Contents = None\<rparr> =
      Some [\<lparr>Name = ''logs''\<rparr>, \<lparr>Name = ''my-bucket''\<rparr>]"
    by simp
  from discover_then_create[OF run demo_ListBuckets bs] show ?thesis
    unfolding run by (auto simp: demo_client_def)
qed

text \<open>
  Claim C3. Once the bucket listing has arrived: when the bucket exists, the objects are
  listed once, and if that listing arrives with a non-empty \<open>Contents\<close> there is one
  delete-objects call, carrying the keys of the listing, and none if \<open>Contents\<close> is empty;
  when the bucket does not exist, there is neither a listing nor a delete.
\<close>

theorem listed_objects_deleted_in_one_batch:
  assumes "reconcile api (c, w) = (r, c', w')"
    and "api (remote w) ListBuckets = (Inr data, s1)" and "Buckets data = Some bs"
  shows "\<exists>es. events w' = events w @ es \<and>
    (if bucketExists c'
     then filter is_ListObjects (requests es) = [ListObjects (bucketName c)] \<and>
       (\<forall>d s2 contents. api s1 (ListObjects (bucketName c)) = (Inr d, s2) \<and> Contents d = Some contents \<longrightarrow>
          filter is_DeleteObjects (requests es) =
            (if contents = [] then [] else [DeleteObjects (bucketName c) (map Key contents)]))
     else filter is_ListObjects (requests es) = [] \<and> filter is_DeleteObjects (requests es) = [])"
  apply (rule exI[where x = "drop (length (events w)) (events w')"])
  using assms unfolding reconcile_def
  by (auto elim!: then_doE dest!: stage_specs simp: responded_def split: option.splits list.splits if_splits)

text \<open>The theorem of claim C3 at the deployment of the example.\<close>

theorem listed_objects_deleted_in_one_batch_witness:
  "\<exists>es. events (snd (snd (reconcile store_api (demo_client, demo_world)))) = events demo_world @ es \<and>
      filter is_ListObjects (requests es) = [ListObjects ''my-bucket''] \<and>
      filter is_DeleteObjects (requests es) = [DeleteObjects ''my-bucket'' [''old.txt'', ''stale.js'']]"
proof -
  obtain r c' w' where run: "reconcile store_api (demo_client, demo_world) = (r, c', w')"
    by (cases "reconcile store_api (demo_client, demo_world)")
  have bs: "Buckets \<lparr>Buckets = Some [\<lparr>Name = ''logs''\<rparr>, \<lparr>Name = ''my-bucket''\<rparr>], Contents = None\<rparr> =
      Some [\<lparr>Name = ''logs''\<rparr>, \<lparr>Name = ''my-bucket''\<rparr>]"
    by simp
  have ex: "bucketExists c'"
    using flag_after_discovery[OF run demo_ListBuckets bs] by (simp add: demo_client_def)
  from listed_objects_deleted_in_one_batch[OF run demo_ListBuckets bs] ex demo_ListObjects show ?thesis
    unfolding run by (auto simp: demo_client_def)
qed

text \<open>
  Claim C8. The events of a deployment are in the order list-buckets, list-objects,
  delete-objects, create-bucket, put-bucket-website, put-bucket-policy, each stage at most
  once; every request is followed at once by its own settlement and nothing follows a
  rejection; \<open>_uploadDirectory\<close> is called right after the policy call is fulfilled, and not
  at all when a stage is rejected.
\<close>

theorem stages_in_sequence:
  assumes "processDeployment api dist (c, w) = (r, c', w')"
  shows "\<exists>es. events w' = events w @ es \<and> sorted_wrt (<) (map rank es) \<and> awaited es \<and>
    (case r of
       Inr _ \<Rightarrow>
         (\<exists>es0. es = es0 @ [Request (PutBucketPolicy (bucketName c) (bucketPolicy (bucketName c))),
                            Settled (PutBucketPolicy (bucketName c) (bucketPolicy (bucketName c))) None,
                            UploadDirectoryCalled (clientPath c)]) \<and>
         pending w' = pending w @ [Readdir (clientPath c) dist]
     | Inl e \<Rightarrow> (\<forall>p. UploadDirectoryCalled p \<notin> set es) \<and> pending w' = pending w)"
  apply (rule exI[where x = "drop (length (events w)) (events w')"])
  using assms unfolding processDeployment_def reconcile_def
  by (auto elim!: then_doE dest!: stage_specs simp: responded_def uploadDirectory_def split: option.splits list.splits if_splits)

text \<open>The theorem of claim C8 at the deployment of the example.\<close>

lemma demo_trace:
  "events (snd (snd (processDeployment store_api demo_dist (demo_client, demo_world)))) =
     [Request ListBuckets, Settled ListBuckets None,
      Request (ListObjects ''my-bucket''), Settled (ListObjects ''my-bucket'') None,
      Request (DeleteObjects ''my-bucket'' [''old.txt'', ''stale.js'']),
      Settled (DeleteObjects ''my-bucket'' [''old.txt'', ''stale.js'']) None,
      Request (PutBucketWebsite ''my-bucket'' ''index.html'' ''error.html''),
      Settled (PutBucketWebsite ''my-bucket'' ''index.html'' ''error.html'') None,
      Request (PutBucketPolicy ''my-bucket'' (bucketPolicy ''my-bucket'')),
      Settled (PutBucketPolicy ''my-bucket'' (bucketPolicy ''my-bucket'')) None,
      UploadDirectoryCalled ''/srv/client/dist'']"
  by (simp add: processDeployment_def reconcile_def then_do_def s3_request_def listBuckets_def
      listObjectsInBucket_def deleteObjectsFromBucket_def createBucket_def configureBucket_def
      configurePolicyForBucket_def uploadDirectory_def demo_client_def demo_world_def demo_store_def
      on_bucket_def body_size_def)

theorem stages_in_sequence_witness:
  "events (snd (snd (processDeployment store_api demo_dist (demo_client, demo_world)))) =
     [Request ListBuckets, Settled ListBuckets None,
      Request (ListObjects ''my-bucket''), Settled (ListObjects ''my-bucket'') None,
      Request (DeleteObjects ''my-bucket'' [''old.txt'', ''stale.js'']),
      Settled (DeleteObjects ''my-bucket'' [''old.txt'', ''stale.js'']) None,
      Request (PutBucketWebsite ''my-bucket'' ''index.html'' ''error.html''),
      Settled (PutBucketWebsite ''my-bucket'' ''index.html'' ''error.html'') None,
      Request (PutBucketPolicy ''my-bucket'' (bucketPolicy ''my-bucket'')),
      Settled (PutBucketPolicy ''my-bucket'' (bucketPolicy ''my-bucket'')) None,
      UploadDirectoryCalled ''/srv/client/dist''] \<and>
   sorted_wrt (<) (map rank (events (snd (snd (processDeployment store_api demo_dist (demo_client, demo_world)))))) \<and>
   awaited (events (snd (snd (processDeployment store_api demo_dist (demo_client, demo_world)))))"
proof -
  obtain r c' w' where run: "processDeployment store_api demo_dist (demo_client, demo_world) = (r, c', w')"
    by (cases "processDeployment store_api demo_dist (demo_client, demo_world)")
  from stages_in_sequence[OF run] obtain es where
    "events w' = events demo_world @ es" and "sorted_wrt (<) (map rank es)" and "awaited es"
    by blast
  then have "sorted_wrt (<) (map rank (events w'))" and "awaited (events w')"
    by (simp_all add: demo_world_def)
  with demo_trace show ?thesis
    unfolding run by simp
qed

section \<open>Properties of the validation\<close>

text \<open>
  Claim C6. Without the build directory the hook's promise is rejected with the
  missing-build-output error; with the directory and without a bucket name (any of
  \<open>custom\<close>, \<open>custom.client\<close>, \<open>bucketName\<close> undefined, or the name empty) it is rejected with
  the missing-configuration error. In both cases the client and the world are as before:
  no call was sent.
\<close>

theorem validation_aborts_before_any_call:
  "(\<not> dirExistsSync sls (path_join sep (path_join sep (servicePath sls) ''client'') ''dist'') \<longrightarrow>
      client_deploy_deploy api sep sls dist (c, w) = (Inl MissingBuildOutput, c, w)) \<and>
   (dirExistsSync sls (path_join sep (path_join sep (servicePath sls) ''client'') ''dist'') \<and>
    (\<forall>name. custom sls = Some (Some (Some name)) \<longrightarrow> name = []) \<longrightarrow>
      client_deploy_deploy api sep sls dist (c, w) = (Inl MissingConfiguration, c, w))"
  by (auto simp: client_deploy_deploy_def validateAndPrepare_def then_do_def split: option.splits)

text \<open>The theorem of claim C6 at the deployment of the example.\<close>

theorem validation_aborts_before_any_call_witness:
  "client_deploy_deploy store_api (CHR ''/'') (demo_serverless False (Some (Some (Some ''my-bucket'')))) demo_dist
     (demo_client, demo_world) = (Inl MissingBuildOutput, demo_client, demo_world) \<and>
   client_deploy_deploy store_api (CHR ''/'') (demo_serverless True (Some None)) demo_dist
     (demo_client, demo_world) = (Inl MissingConfiguration, demo_client, demo_world)"
  using validation_aborts_before_any_call[of "demo_serverless False (Some (Some (Some ''my-bucket'')))" "CHR ''/''" store_api demo_dist demo_client demo_world]
    validation_aborts_before_any_call[of "demo_serverless True (Some None)" "CHR ''/''" store_api demo_dist demo_client demo_world]
  by (simp add: demo_serverless_def path_join_def)

section \<open>The reconciliation against the model store\<close>

lemma listed_keys_deleted:
  "filter (\<lambda>(k, uu). k \<notin> (\<lambda>x. Key (case x of (k, body, uu) \<Rightarrow> \<lparr>Key = k, ETag = [], Size = body_size body\<rparr>)) ` set objs) objs = []"
  by (force simp: filter_empty_conv)

lemma website_idem: "website st = Some v \<Longrightarrow> st\<lparr>website := Some v\<rparr> = st"
  by (cases st) simp

lemma access_policy_idem: "access_policy st = Some v \<Longrightarrow> st\<lparr>access_policy := Some v\<rparr> = st"
  by (cases st) simp

lemma store_state_idem: "f = state s \<Longrightarrow> f b = v \<Longrightarrow> s\<lparr>state := (state s)(b := v)\<rparr> = s"
  by (cases s) auto

lemma store_end_state:
  assumes "reconcile store_api (c, w) = (Inr (), c', w')"
  shows "configured (bucketName c) (remote w')" and "bucketName c' = bucketName c"
proof -
  from assms obtain data s1 bs s2 d3 s3 d4 where
    emptied: "if bucketExists c'
     then \<exists>d s contents. store_api s1 (ListObjects (bucketName c)) = (Inr d, s) \<and> Contents d = Some contents \<and>
            (if contents = [] then s2 = s
             else \<exists>d'. store_api s (DeleteObjects (bucketName c) (map Key contents)) = (Inr d', s2))
     else \<exists>d. store_api s1 (CreateBucket (bucketName c)) = (Inr d, s2)" and
    ws: "store_api s2 (PutBucketWebsite (bucketName c) ''index.html'' ''error.html'') = (Inr d3, s3)" and
    po: "store_api s3 (PutBucketPolicy (bucketName c) (bucketPolicy (bucketName c))) = (Inr d4, remote w')" and
    n: "bucketName c' = bucketName c"
    by (rule reconcile_fulfilled)
  from emptied have s2: "bucketName c \<in> set (names s2) \<and> objects (state s2 (bucketName c)) = []"
    by (auto simp: on_bucket_def empty_bucket_def listed_keys_deleted split: if_splits)
  from ws have s3: "s3 = s2\<lparr>state := (state s2)(bucketName c := state s2 (bucketName c)\<lparr>website := Some (''index.html'', ''error.html'')\<rparr>)\<rparr>"
    by (auto simp: on_bucket_def split: if_splits)
  from po have s4: "remote w' = s3\<lparr>state := (state s3)(bucketName c := state s3 (bucketName c)\<lparr>access_policy := Some (bucketPolicy (bucketName c))\<rparr>)\<rparr>"
    by (auto simp: on_bucket_def split: if_splits)
  from s2 show "configured (bucketName c) (remote w')"
    unfolding s4 s3 configured_def by simp
  from n show "bucketName c' = bucketName c" .
qed

lemma store_rerun:
  assumes "configured (bucketName c) s" and "remote w = s"
  shows "\<exists>c' w'. reconcile store_api (c, w) = (Inr (), c', w') \<and> remote w' = s"
proof (rule fulfils_keep)
  show "store_api (remote w) ListBuckets = (Inr \<lparr>Buckets = Some (map (\<lambda>b. \<lparr>Name = b\<rparr>) (names s)), Contents = None\<rparr>, s)"
    using assms by simp
  show "Buckets \<lparr>Buckets = Some (map (\<lambda>b. \<lparr>Name = b\<rparr>) (names s)), Contents = None\<rparr> = Some (map (\<lambda>b. \<lparr>Name = b\<rparr>) (names s))"
    by simp
  show "bucketExists c \<or> bucketName c \<in> Name ` set (map (\<lambda>b. \<lparr>Name = b\<rparr>) (names s))"
    using assms by (simp add: configured_def image_image)
  show "store_api s (ListObjects (bucketName c)) = (Inr \<lparr>Buckets = None, Contents = Some []\<rparr>, s)"
    using assms by (simp add: configured_def)
  show "Contents \<lparr>Buckets = None, Contents = Some []\<rparr> = Some []" by simp
  show "store_api s (PutBucketWebsite (bucketName c) ''index.html'' ''error.html'') = (Inr \<lparr>Buckets = None, Contents = None\<rparr>, s)"
    using assms by (simp add: configured_def on_bucket_def website_idem store_state_idem[OF refl])
  show "store_api s (PutBucketPolicy (bucketName c) (bucketPolicy (bucketName c))) = (Inr \<lparr>Buckets = None, Contents = None\<rparr>, s)"
    using assms by (simp add: configured_def on_bucket_def access_policy_idem store_state_idem[OF refl])
qed

lemma store_first_run:
  assumes "\<not> bucketExists c"
  shows "\<exists>c' w'. reconcile store_api (c, w) = (Inr (), c', w')"
proof -
  let ?b = "bucketName c" and ?s = "remote w"
  have lb: "store_api ?s ListBuckets = (Inr \<lparr>Buckets = Some (map (\<lambda>b. \<lparr>Name = b\<rparr>) (names ?s)), Contents = None\<rparr>, ?s)"
    by simp
  have bs: "Buckets \<lparr>Buckets = Some (map (\<lambda>b. \<lparr>Name = b\<rparr>) (names ?s)), Contents = None\<rparr> = Some (map (\<lambda>b. \<lparr>Name = b\<rparr>) (names ?s))"
    by simp
  have tail: "\<exists>d3 s3 d4 s4. store_api s2 (PutBucketWebsite ?b ''index.html'' ''error.html'') = (Inr d3, s3) \<and>
      store_api s3 (PutBucketPolicy ?b (bucketPolicy ?b)) = (Inr d4, s4)" if "?b \<in> set (names s2)" for s2
    using that by (simp add: on_bucket_def)
  show ?thesis
  proof (cases "?b \<in> set (names ?s)")
    case True
    then have m: "bucketExists c \<or> ?b \<in> Name ` set (map (\<lambda>b. \<lparr>Name = b\<rparr>) (names ?s))"
      by (simp add: image_image)
    obtain contents where lo: "store_api ?s (ListObjects ?b) = (Inr \<lparr>Buckets = None, Contents = Some contents\<rparr>, ?s)"
      using True by simp
    have co: "Contents \<lparr>Buckets = None, Contents = Some contents\<rparr> = Some contents" by simp
    show ?thesis
    proof (cases contents)
      case Nil
      from tail[OF True] fulfils_keep[where api = store_api, OF lb bs m lo[unfolded Nil] co[unfolded Nil]] Nil show ?thesis by blast
    next
      case (Cons x xs)
      obtain s2 where del: "store_api ?s (DeleteObjects ?b (map Key (x # xs))) = (Inr \<lparr>Buckets = None, Contents = None\<rparr>, s2)"
        and "?b \<in> set (names s2)"
        using True by (simp add: on_bucket_def)
      from tail[OF this(2)] fulfils_drain[where api = store_api, OF lb bs m lo[unfolded Cons] co[unfolded Cons] del] show ?thesis by blast
    qed
  next
    case False
    then have m: "?b \<notin> Name ` set (map (\<lambda>b. \<lparr>Name = b\<rparr>) (names ?s))"
      by (simp add: image_image)
    obtain s2 where cr: "store_api ?s (CreateBucket ?b) = (Inr \<lparr>Buckets = None, Contents = None\<rparr>, s2)"
      and "?b \<in> set (names s2)"
      using False by simp
    from tail[OF this(2)] fulfils_create[where api = store_api, OF lb bs assms m cr] show ?thesis by blast
  qed
qed

text \<open>
  Claim C1. Against the model store: from a fresh \<open>Client\<close> the reconciliation is
  fulfilled whatever the store holds; whenever it is fulfilled the bucket exists, has no
  objects, has the website configuration \<open>index.html\<close> / \<open>error.html\<close>, and has the
  policy whose single statement allows \<open>s3:GetObject\<close> to every principal on
  \<open>arn:aws:s3:::bucketName/*\<close>; and a second reconciliation right after is fulfilled too
  and leaves the store as the first one left it.
\<close>

theorem reconcile_end_state:
  "(\<not> bucketExists c \<longrightarrow> (\<exists>c' w'. reconcile store_api (c, w) = (Inr (), c', w'))) \<and>
   (\<forall>c' w'. reconcile store_api (c, w) = (Inr (), c', w') \<longrightarrow>
      bucketName c \<in> set (names (remote w')) \<and>
      objects (state (remote w') (bucketName c)) = [] \<and>
      website (state (remote w') (bucketName c)) = Some (''index.html'', ''error.html'') \<and>
      access_policy (state (remote w') (bucketName c)) =
        Some \<lparr>Version = ''2008-10-17'',
              PolicyId = ''Policy1392681112290'',
              Statement =
                [\<lparr>Sid = ''Stmt1392681101677'',
                  Effect = ''Allow'',
                  Principal_AWS = ''*'',
                  Action = ''s3:GetObject'',
                  Resource = ''arn:aws:s3:::'' @ bucketName c @ ''/*''\<rparr>]\<rparr> \<and>
      (\<exists>c'' w''. reconcile store_api (c', w') = (Inr (), c'', w'') \<and> remote w'' = remote w'))"
proof (intro conjI impI allI)
  assume "\<not> bucketExists c"
  then show "\<exists>c' w'. reconcile store_api (c, w) = (Inr (), c', w')" by (rule store_first_run)
next
  fix c' w'
  assume run: "reconcile store_api (c, w) = (Inr (), c', w')"
  note fin = store_end_state[OF run]
  from fin(1) show "bucketName c \<in> set (names (remote w'))"
    and "objects (state (remote w') (bucketName c)) = []"
    and "website (state (remote w') (bucketName c)) = Some (''index.html'', ''error.html'')"
    and "access_policy (state (remote w') (bucketName c)) =
        Some \<lparr>Version = ''2008-10-17'',
              PolicyId = ''Policy1392681112290'',
              Statement =
                [\<lparr>Sid = ''Stmt1392681101677'',
                  Effect = ''Allow'',
                  Principal_AWS = ''*'',
                  Action = ''s3:GetObject'',
                  Resource = ''arn:aws:s3:::'' @ bucketName c @ ''/*''\<rparr>]\<rparr>"
    by (simp_all add: configured_def bucketPolicy_def)
  from fin show "\<exists>c'' w''. reconcile store_api (c', w') = (Inr (), c'', w'') \<and> remote w'' = remote w'"
    using store_rerun[of c' "remote w'" w'] by simp
qed

text \<open>
  The theorem of claim C1 at the deployment of the example: the bucket that held
  \<open>old.txt\<close> and \<open>stale.js\<close> ends empty, configured, and readable by everyone.
\<close>

theorem reconcile_end_state_witness:
  "fst (reconcile store_api (demo_client, demo_world)) = Inr () \<and>
   ''my-bucket'' \<in> set (names (remote (snd (snd (reconcile store_api (demo_client, demo_world)))))) \<and>
   objects (state (remote (snd (snd (reconcile store_api (demo_client, demo_world))))) ''my-bucket'') = [] \<and>
   website (state (remote (snd (snd (reconcile store_api (demo_client, demo_world))))) ''my-bucket'') =
     Some (''index.html'', ''error.html'') \<and>
   access_policy (state (remote (snd (snd (reconcile store_api (demo_client, demo_world))))) ''my-bucket'') =
     Some \<lparr>Version = ''2008-10-17'',
           PolicyId = ''Policy1392681112290'',
           Statement =
             [\<lparr>Sid = ''Stmt1392681101677'',
               Effect = ''Allow'',
               Principal_AWS = ''*'',
               Action = ''s3:GetObject'',
               Resource = ''arn:aws:s3:::my-bucket/*''\<rparr>]\<rparr>"
proof -
  note t = reconcile_end_state[of demo_client demo_world]
  from t obtain c' w' where run: "reconcile store_api (demo_client, demo_world) = (Inr (), c', w')"
    by (auto simp: demo_client_def)
  with t show ?thesis
    by (simp add: demo_client_def)
qed

section \<open>Properties of the upload\<close>

lemma puts_sent_append [simp]: "puts_sent (xs @ ys) = puts_sent xs @ puts_sent ys"
  by (simp add: puts_sent_def requests_append)

lemma puts_sent_simps [simp]:
  "puts_sent [] = []"
  "puts_sent [Request (PutObject b k body t)] = [PutObject b k body t]"
  "puts_sent [Settled call out] = []"
  "puts_sent [Uncaught e] = []"
  by (simp_all add: puts_sent_def)

lemma mset_without_nth:
  assumes "i < length ts"
  shows "mset (concat (map f (take i ts @ drop (Suc i) ts))) + mset (f (ts ! i)) = mset (concat (map f ts))"
proof -
  have "ts = take i ts @ ts ! i # drop (Suc i) ts"
    using assms by (rule id_take_nth_drop)
  then have "mset (concat (map f ts)) = mset (concat (map f (take i ts @ ts ! i # drop (Suc i) ts)))"
    by simp
  then show ?thesis by simp
qed

lemma sum_without_nth:
  assumes "i < length ts"
  shows "sum_list (map f (take i ts @ drop (Suc i) ts)) + f (ts ! i) = (sum_list (map f ts) :: nat)"
proof -
  have "ts = take i ts @ ts ! i # drop (Suc i) ts"
    using assms by (rule id_take_nth_drop)
  then have "sum_list (map f ts) = sum_list (map f (take i ts @ ts ! i # drop (Suc i) ts))"
    by simp
  then show ?thesis by simp
qed

lemma owed_stats:
  "concat (map (owed types sep c \<circ> (\<lambda>(file, e). Stat (path_join sep p file) e)) files) =
   concat (map (\<lambda>(name, e). puts_below types sep c (path_join sep p name) e) files)"
  by (induction files) auto

lemma crash_free_stats:
  "list_all crash_free (map (\<lambda>(file, e). Stat (path_join sep p file) e) files) =
   list_all (\<lambda>(name, e). statable e) files"
  by (induction files) auto

text \<open>What one callback does to the calls sent and the calls still owed.\<close>

lemma callback_owed:
  assumes "crash_free t" and "list_all crash_free (pending w)"
  shows "list_all crash_free (pending (callback api sep types c t w)) \<and>
    mset (puts_sent (events (callback api sep types c t w))) +
      mset (concat (map (owed types sep c) (pending (callback api sep types c t w)))) =
    mset (puts_sent (events w)) + mset (concat (map (owed types sep c) (pending w))) + mset (owed types sep c t)"
proof (cases t)
  case (Readdir p dir)
  with assms show ?thesis
    by (cases dir) (simp_all add: owed_stats crash_free_stats)
next
  case (Stat p e)
  with assms show ?thesis
    by (cases e) (simp_all add: uploadDirectory_def uploadFile_def)
next
  case (ReadFile p key e)
  with assms show ?thesis by (simp add: Let_def)
next
  case (Put call)
  with assms show ?thesis by (simp split: prod.splits sum.splits)
qed

lemma step_owed:
  assumes "step api sep types c i w = Some w'" and "list_all crash_free (pending w)"
  shows "list_all crash_free (pending w') \<and>
    mset (puts_sent (events w')) + mset (concat (map (owed types sep c) (pending w'))) =
    mset (puts_sent (events w)) + mset (concat (map (owed types sep c) (pending w)))"
proof -
  from assms(1) have i: "i < length (pending w)"
    and w': "w' = callback api sep types c (pending w ! i) (w\<lparr>pending := take i (pending w) @ drop (Suc i) (pending w)\<rparr>)"
    by (auto simp: step_def split: if_splits)
  from assms(2) i have t: "crash_free (pending w ! i)"
    by (simp add: list_all_length)
  from assms(2) have rest: "list_all crash_free (pending (w\<lparr>pending := take i (pending w) @ drop (Suc i) (pending w)\<rparr>))"
    by (auto simp: list_all_iff dest: in_set_takeD in_set_dropD)
  from callback_owed[OF t rest, of api sep types c] mset_without_nth[OF i, of "owed types sep c"]
  show ?thesis unfolding w' by (simp add: add.assoc)
qed

lemma run_owed:
  assumes "run api sep types c schedule w = Some w'" and "list_all crash_free (pending w)"
  shows "mset (puts_sent (events w')) + mset (concat (map (owed types sep c) (pending w'))) =
    mset (puts_sent (events w)) + mset (concat (map (owed types sep c) (pending w)))"
  using assms
proof (induction schedule arbitrary: w)
  case Nil
  then show ?case by simp
next
  case (Cons i schedule)
  from Cons.prems(1) obtain w1 where s: "step api sep types c i w = Some w1"
    and r: "run api sep types c schedule w1 = Some w'"
    by (auto split: option.splits)
  from step_owed[OF s Cons.prems(2)] Cons.IH[OF r] show ?case by simp
qed

lemma readable_statable: "readable e \<Longrightarrow> statable e"
  by (induction e rule: statable.induct) (auto simp: list_all_iff)

lemma puts_below_readable:
  "readable e \<Longrightarrow>
   puts_below types sep c p e =
   map (\<lambda>(filePath, contents). PutObject (bucketName c) (fileKey (clientPath c) filePath) (Some contents) (mime_lookup types filePath))
     (regular_files sep p e)"
proof (induction types sep c p e rule: puts_below.induct)
  case (1 types sep c p files)
  have "set fs \<subseteq> set files \<Longrightarrow>
    concat (map (\<lambda>(name, e). puts_below types sep c (path_join sep p name) e) fs) =
    map (\<lambda>(filePath, contents). PutObject (bucketName c) (fileKey (clientPath c) filePath) (Some contents) (mime_lookup types filePath))
      (concat (map (\<lambda>(name, e). regular_files sep (path_join sep p name) e) fs))" for fs
  proof (induction fs)
    case Nil
    then show ?case by simp
  next
    case (Cons x fs)
    with 1 show ?case by (cases x) (auto simp: list_all_iff)
  qed
  then show ?case by simp
qed simp_all

text \<open>Every callback uses up work: the loop cannot run forever.\<close>

lemma work_stats:
  "sum_list (map (work \<circ> (\<lambda>(file, e). Stat (path_join sep p file) e)) files) =
   sum_list (map (\<lambda>(name, e). cost e) files)"
  by (induction files) auto

lemma callback_work:
  "sum_list (map work (pending (callback api sep types c t w))) < sum_list (map work (pending w)) + work t"
proof (cases t)
  case (Readdir p dir)
  then show ?thesis by (cases dir) (simp_all add: work_stats)
next
  case (Stat p e)
  then show ?thesis by (cases e) (simp_all add: uploadDirectory_def uploadFile_def)
next
  case (ReadFile p key e)
  then show ?thesis by (simp add: Let_def)
next
  case (Put call)
  then show ?thesis by (simp split: prod.splits sum.splits)
qed

lemma step_work:
  assumes "step api sep types c i w = Some w'"
  shows "sum_list (map work (pending w')) < sum_list (map work (pending w))"
proof -
  from assms have i: "i < length (pending w)"
    and w': "w' = callback api sep types c (pending w ! i) (w\<lparr>pending := take i (pending w) @ drop (Suc i) (pending w)\<rparr>)"
    by (auto simp: step_def split: if_splits)
  from callback_work[of api sep types c "pending w ! i" "w\<lparr>pending := take i (pending w) @ drop (Suc i) (pending w)\<rparr>"]
    sum_without_nth[OF i, of work]
  show ?thesis unfolding w' by simp
qed

lemma run_completes: "\<exists>schedule w'. run api sep types c schedule w = Some w' \<and> pending w' = []"
proof (induction "sum_list (map work (pending w))" arbitrary: w rule: less_induct)
  case less
  show ?case
  proof (cases "pending w")
    case Nil
    then have "run api sep types c [] w = Some w \<and> pending w = []" by simp
    then show ?thesis by blast
  next
    case (Cons t ts)
    then obtain w1 where s: "step api sep types c 0 w = Some w1"
      by (simp add: step_def)
    from less[OF step_work[OF s]] obtain schedule w' where
      "run api sep types c schedule w1 = Some w' \<and> pending w' = []" by blast
    with s have "run api sep types c (0 # schedule) w = Some w' \<and> pending w' = []" by simp
    then show ?thesis by blast
  qed
qed

lemma run_length:
  "run api sep types c schedule w = Some w' \<Longrightarrow>
   length schedule + sum_list (map work (pending w')) \<le> sum_list (map work (pending w))"
proof (induction schedule arbitrary: w)
  case Nil
  then show ?case by simp
next
  case (Cons i schedule)
  from Cons.prems obtain w1 where s: "step api sep types c i w = Some w1"
    and r: "run api sep types c schedule w1 = Some w'"
    by (auto split: option.splits)
  from step_work[OF s] Cons.IH[OF r] show ?case by simp
qed

lemma quiet_refl [simp]: "quiet st st"
  by (simp add: quiet_def)



lemma responded_quiet:
  "\<not> is_PutObject call \<Longrightarrow> responded api call w r w' \<Longrightarrow> quiet (c, w) (c, w')"
  by (cases call) (auto simp: responded_def quiet_def puts_sent_def requests_append)









text \<open>The promise of the deployment is settled by the reconciliation alone.\<close>

lemma processDeployment_result:
  "fst (processDeployment api dist st) = fst (reconcile api st)"
  by (auto simp: processDeployment_def then_do_def split: prod.splits sum.splits)








lemma unreadable_files_put:
  "mset (map (\<lambda>filePath. putObject_for types c filePath None) (unreadable_files sep p e)) \<subseteq>#
   mset (puts_below types sep c p e)"
proof (induction types sep c p e rule: puts_below.induct)
  case (1 types sep c p files)
  have "set fs \<subseteq> set files \<Longrightarrow>
    mset (map (\<lambda>filePath. putObject_for types c filePath None)
      (concat (map (\<lambda>(name, e). unreadable_files sep (path_join sep p name) e) fs))) \<subseteq>#
    mset (concat (map (\<lambda>(name, e). puts_below types sep c (path_join sep p name) e) fs))" for fs
  proof (induction fs)
    case Nil
    then show ?case by simp
  next
    case (Cons x fs)
    with 1 show ?case by (cases x) (auto intro: subset_mset.add_mono)
  qed
  then show ?case by simp
qed (simp_all add: putObject_for_def)

text \<open>
  Claim C2. For a tree of directories and regular files on which every filesystem call
  succeeds: the event loop can always run until nothing is pending, and in whatever order
  the pending operations complete, once nothing is pending the \<open>putObject\<close> calls sent
  are, counted with multiplicity, one for each regular file below the root, with the
  file's contents as the body. No other \<open>putObject\<close> call is sent, so none for a directory.
\<close>

theorem one_put_per_regular_file:
  assumes "readable (Directory files)" and "pending w = []"
  shows "(\<exists>schedule w'.
      run api sep types c schedule (uploadDirectory (clientPath c) (Directory files) w) = Some w' \<and>
      pending w' = []) \<and>
    (\<forall>schedule w'.
      run api sep types c schedule (uploadDirectory (clientPath c) (Directory files) w) = Some w' \<and>
      pending w' = [] \<longrightarrow>
      mset (puts_sent (events w')) =
        mset (puts_sent (events w)) +
        mset (map (\<lambda>(filePath, contents). putObject_for types c filePath (Some contents))
               (regular_files sep (clientPath c) (Directory files))))"
proof (intro conjI allI impI)
  show "\<exists>schedule w'.
      run api sep types c schedule (uploadDirectory (clientPath c) (Directory files) w) = Some w' \<and>
      pending w' = []"
    by (rule run_completes)
next
  fix schedule w'
  assume "run api sep types c schedule (uploadDirectory (clientPath c) (Directory files) w) = Some w' \<and>
      pending w' = []"
  then have r: "run api sep types c schedule (uploadDirectory (clientPath c) (Directory files) w) = Some w'"
    and q: "pending w' = []" by simp_all
  from assms have cf: "list_all crash_free (pending (uploadDirectory (clientPath c) (Directory files) w))"
    by (simp add: uploadDirectory_def readable_statable[of "Directory files", simplified])
  have "puts_below types sep c (clientPath c) (Directory files) =
    map (\<lambda>(filePath, contents). putObject_for types c filePath (Some contents))
      (regular_files sep (clientPath c) (Directory files))"
    using puts_below_readable[OF assms(1), of types sep c "clientPath c"]
    by (simp add: putObject_for_def)
  with run_owed[OF r cf] q assms(2)
  show "mset (puts_sent (events w')) =
        mset (puts_sent (events w)) +
        mset (map (\<lambda>(filePath, contents). putObject_for types c filePath (Some contents))
               (regular_files sep (clientPath c) (Directory files)))"
    by (simp add: uploadDirectory_def)
qed

text \<open>The theorem of claim C2 at the deployment of the example.\<close>

theorem one_put_per_regular_file_witness:
  "\<exists>schedule w'.
     run store_api (CHR ''/'') demo_types demo_client schedule
       (uploadDirectory ''/srv/client/dist'' demo_dist demo_world) = Some w' \<and>
     pending w' = [] \<and>
     mset (puts_sent (events w')) =
       {#PutObject ''my-bucket'' ''index.html'' (Some ''<html>'') ''text/html'',
         PutObject ''my-bucket'' ''error.html'' (Some ''<p>'') ''text/html'',
         PutObject ''my-bucket'' ''css/app.css'' (Some ''body{}'') ''text/css''#}"
proof -
  have files: "demo_dist = Directory
       [(''index.html'', RegularFile ''<html>''),
        (''error.html'', RegularFile ''<p>''),
        (''css'', Directory [(''app.css'', RegularFile ''body{}'')])]"
    by (simp add: demo_dist_def)
  have root: "clientPath demo_client = ''/srv/client/dist''" by (simp add: demo_client_def)
  have "readable (Directory
       [(''index.html'', RegularFile ''<html>''),
        (''error.html'', RegularFile ''<p>''),
        (''css'', Directory [(''app.css'', RegularFile ''body{}'')])])" by simp
  moreover have "pending demo_world = []" by (simp add: demo_world_def)
  ultimately have t: "(\<exists>schedule w'.
      run store_api (CHR ''/'') demo_types demo_client schedule (uploadDirectory ''/srv/client/dist'' demo_dist demo_world) = Some w' \<and>
      pending w' = []) \<and>
    (\<forall>schedule w'.
      run store_api (CHR ''/'') demo_types demo_client schedule (uploadDirectory ''/srv/client/dist'' demo_dist demo_world) = Some w' \<and>
      pending w' = [] \<longrightarrow>
      mset (puts_sent (events w')) =
        mset (puts_sent (events demo_world)) +
        mset (map (\<lambda>(filePath, contents). putObject_for demo_types demo_client filePath (Some contents))
               (regular_files (CHR ''/'') ''/srv/client/dist'' demo_dist)))"
    unfolding files root[symmetric] by (rule one_put_per_regular_file)
  have "mset (puts_sent (events demo_world)) +
        mset (map (\<lambda>(filePath, contents). putObject_for demo_types demo_client filePath (Some contents))
               (regular_files (CHR ''/'') ''/srv/client/dist'' demo_dist)) =
       {#PutObject ''my-bucket'' ''index.html'' (Some ''<html>'') ''text/html'',
         PutObject ''my-bucket'' ''error.html'' (Some ''<p>'') ''text/html'',
         PutObject ''my-bucket'' ''css/app.css'' (Some ''body{}'') ''text/css''#}"
    by (simp add: demo_world_def demo_dist_def demo_client_def demo_types_def putObject_for_def
        path_join_def fileKey_def substr_def backslash_def mime_lookup_def extension_def toLowerCase_def
        puts_sent_def)
  with t show ?thesis by metis
qed



text \<open>
  Claim C5. The key is the path below the root with its first backslash, and only that
  one, turned into a slash. On Windows a file two directories down keeps a backslash in
  its key, below a root ending in \<open>client\<close>, \<open>dist\<close> as \<open>_validateAndPrepare\<close> builds it
  and below any other root; on POSIX a file whose name contains a backslash gets the key
  of another file, and one whose name starts with a backslash gets a key that starts with
  a slash.
\<close>

theorem fileKey_replaces_first_backslash_only:
  "fileKey (''C:'' @ [backslash] @ ''proj'' @ [backslash] @ ''client'' @ [backslash] @ ''dist'')
     (path_join backslash (path_join backslash (path_join backslash
        (''C:'' @ [backslash] @ ''proj'' @ [backslash] @ ''client'' @ [backslash] @ ''dist'') ''css'') ''sub'') ''app.css'') =
     ''css/sub'' @ [backslash] @ ''app.css'' \<and>
   fileKey (''C:'' @ [backslash] @ ''dist'')
     (path_join backslash (path_join backslash (path_join backslash (''C:'' @ [backslash] @ ''dist'') ''css'') ''sub'') ''app.css'') =
     ''css/sub'' @ [backslash] @ ''app.css'' \<and>
   fileKey ''/dist'' (path_join (CHR ''/'') ''/dist'' (''a'' @ [backslash] @ ''b'')) =
     fileKey ''/dist'' (path_join (CHR ''/'') (path_join (CHR ''/'') ''/dist'' ''a'') ''b'') \<and>
   fileKey ''/dist'' (path_join (CHR ''/'') ''/dist'' ([backslash] @ ''x'')) = ''/x''"
  by (simp add: fileKey_def substr_def path_join_def backslash_def)

text \<open>
  Claim C9. The \<open>putObject\<close> sent when a file has been read carries the content type that
  the lookup resolves for the file's path; a table that knows \<open>js\<close> as JavaScript resolves
  \<open>app.js\<close> in any directory to it, and a path whose extension the table does not know
  resolves to \<open>application/octet-stream\<close>.
\<close>

theorem content_type_from_extension:
  "(i < length (pending w) \<and> pending w ! i = ReadFile filePath key e \<longrightarrow>
      (\<exists>w'. step api sep types c i w = Some w' \<and>
         events w' = events w @ [Request (PutObject (bucketName c) key (readFile e) (mime_lookup types filePath))])) \<and>
   (types ''js'' = Some ''application/javascript'' \<longrightarrow>
      mime_lookup types (path_join sep dir ''app.js'') = ''application/javascript'') \<and>
   (types (extension filePath) = None \<longrightarrow> mime_lookup types filePath = ''application/octet-stream'')"
  by (simp add: step_def Let_def mime_lookup_def extension_def toLowerCase_def path_join_def backslash_def)

text \<open>The theorem of claim C9 at the deployment of the example.\<close>

theorem content_type_from_extension_witness:
  "mime_lookup demo_types ''/srv/client/dist/app.js'' = ''application/javascript'' \<and>
   mime_lookup demo_types ''/srv/client/dist/notes.xyz'' = ''application/octet-stream'' \<and>
   (\<exists>w'. step store_api (CHR ''/'') demo_types demo_client 0
            (demo_world\<lparr>pending := [ReadFile ''/srv/client/dist/app.js'' ''app.js'' (RegularFile ''x'')]\<rparr>) = Some w' \<and>
      events w' = [Request (PutObject ''my-bucket'' ''app.js'' (Some ''x'') ''application/javascript'')])"
proof -
  note t = content_type_from_extension[of 0 "demo_world\<lparr>pending := [ReadFile ''/srv/client/dist/app.js'' ''app.js'' (RegularFile ''x'')]\<rparr>"
      "''/srv/client/dist/app.js''" "''app.js''" "RegularFile ''x''" store_api "CHR ''/''" demo_types demo_client "''/srv/client/dist''"]
    and u = content_type_from_extension[of 0 demo_world "''/srv/client/dist/notes.xyz''" "[]" Unstatable store_api "CHR ''/''" demo_types demo_client "[]"]
  have js: "demo_types ''js'' = Some ''application/javascript''" by (simp add: demo_types_def)
  have xyz: "demo_types (extension ''/srv/client/dist/notes.xyz'') = None"
    by (simp add: demo_types_def extension_def toLowerCase_def backslash_def)
  from t js have 1: "mime_lookup demo_types ''/srv/client/dist/app.js'' = ''application/javascript''"
    by (simp add: path_join_def)
  from u xyz have 2: "mime_lookup demo_types ''/srv/client/dist/notes.xyz'' = ''application/octet-stream''"
    by simp
  from t 1 have 3: "\<exists>w'. step store_api (CHR ''/'') demo_types demo_client 0
            (demo_world\<lparr>pending := [ReadFile ''/srv/client/dist/app.js'' ''app.js'' (RegularFile ''x'')]\<rparr>) = Some w' \<and>
      events w' = [Request (PutObject ''my-bucket'' ''app.js'' (Some ''x'') ''application/javascript'')]"
    by (simp add: demo_world_def demo_client_def)
  from 1 2 3 show ?thesis by blast
qed

lemma client_deploy_deploy_result:
  "fst (client_deploy_deploy api sep sls dist st) = fst (client_deploy_deploy api sep sls dist' st)"
  by (simp add: client_deploy_deploy_def then_do_def processDeployment_result split: prod.splits sum.splits)

text \<open>
  Claim C10. A failed \<open>stat\<close>: the callback does not look at the error, \<open>isDirectory()\<close>
  on the undefined \<open>stats\<close> throws a \<open>TypeError\<close> inside the callback, and nothing is sent.
  A failed \<open>readdir\<close>: the operation is gone and nothing else happens. A failed
  \<open>readFile\<close>: \<open>putObject\<close> is sent all the same, with an undefined body; in a whole run
  over a directory on which every \<open>stat\<close> succeeds, every unreadable file is sent so.
  The outcome of the hook's promise is the same whatever the directory holds.
\<close>

theorem filesystem_failures_are_not_reported:
  "(i < length (pending w) \<and> pending w ! i = Stat p Unstatable \<longrightarrow>
      step api sep types c i w = Some (w\<lparr>events := events w @ [Uncaught TypeError], pending := []\<rparr>)) \<and>
   (i < length (pending w) \<and> pending w ! i = Readdir p UnreadableDirectory \<longrightarrow>
      step api sep types c i w = Some (w\<lparr>pending := take i (pending w) @ drop (Suc i) (pending w)\<rparr>)) \<and>
   (i < length (pending w) \<and> pending w ! i = ReadFile p key UnreadableFile \<longrightarrow>
      step api sep types c i w =
        Some (w\<lparr>events := events w @ [Request (PutObject (bucketName c) key None (mime_lookup types p))],
                pending := take i (pending w) @ drop (Suc i) (pending w) @
                  [Put (PutObject (bucketName c) key None (mime_lookup types p))]\<rparr>)) \<and>
   (statable (Directory files) \<and> pending w = [] \<longrightarrow>
      (\<forall>schedule w'.
         run api sep types c schedule (uploadDirectory (clientPath c) (Directory files) w) = Some w' \<and>
         pending w' = [] \<longrightarrow>
         mset (map (\<lambda>filePath. putObject_for types c filePath None)
                (unreadable_files sep (clientPath c) (Directory files))) \<subseteq>#
         mset (puts_sent (events w')))) \<and>
   fst (client_deploy_deploy api sep sls dist (c, w)) = fst (client_deploy_deploy api sep sls dist' (c, w))"
proof (intro conjI allI impI)
  assume "i < length (pending w) \<and> pending w ! i = Stat p Unstatable"
  then show "step api sep types c i w = Some (w\<lparr>events := events w @ [Uncaught TypeError], pending := []\<rparr>)"
    by (simp add: step_def)
next
  assume "i < length (pending w) \<and> pending w ! i = Readdir p UnreadableDirectory"
  then show "step api sep types c i w = Some (w\<lparr>pending := take i (pending w) @ drop (Suc i) (pending w)\<rparr>)"
    by (simp add: step_def)
next
  assume "i < length (pending w) \<and> pending w ! i = ReadFile p key UnreadableFile"
  then show "step api sep types c i w =
        Some (w\<lparr>events := events w @ [Request (PutObject (bucketName c) key None (mime_lookup types p))],
                pending := take i (pending w) @ drop (Suc i) (pending w) @
                  [Put (PutObject (bucketName c) key None (mime_lookup types p))]\<rparr>)"
    by (simp add: step_def Let_def)
next
  fix schedule w'
  assume a: "statable (Directory files) \<and> pending w = []"
    and "run api sep types c schedule (uploadDirectory (clientPath c) (Directory files) w) = Some w' \<and> pending w' = []"
  then have r: "run api sep types c schedule (uploadDirectory (clientPath c) (Directory files) w) = Some w'"
    and q: "pending w' = []" by simp_all
  from a have cf: "list_all crash_free (pending (uploadDirectory (clientPath c) (Directory files) w))"
    by (simp add: uploadDirectory_def)
  from run_owed[OF r cf] q a
  have "mset (puts_sent (events w')) =
      mset (puts_sent (events w)) + mset (puts_below types sep c (clientPath c) (Directory files))"
    by (simp add: uploadDirectory_def)
  with unreadable_files_put[of types c sep "clientPath c" "Directory files"]
  show "mset (map (\<lambda>filePath. putObject_for types c filePath None)
                (unreadable_files sep (clientPath c) (Directory files))) \<subseteq>#
         mset (puts_sent (events w'))"
    by (simp add: subset_mset.add_increasing)
next
  show "fst (client_deploy_deploy api sep sls dist (c, w)) = fst (client_deploy_deploy api sep sls dist' (c, w))"
    by (rule client_deploy_deploy_result)
qed

text \<open>The theorem of claim C10 at the deployment of the example.\<close>

theorem filesystem_failures_are_not_reported_witness:
  "step store_api (CHR ''/'') demo_types demo_client 0
     (demo_world\<lparr>pending := [Stat ''/srv/client/dist/gone'' Unstatable, Stat ''/srv/client/dist/a.js'' (RegularFile ''a'')]\<rparr>) =
     Some (demo_world\<lparr>events := [Uncaught TypeError], pending := []\<rparr>) \<and>
   step store_api (CHR ''/'') demo_types demo_client 0
     (demo_world\<lparr>pending := [ReadFile ''/srv/client/dist/b.js'' ''b.js'' UnreadableFile]\<rparr>) =
     Some (demo_world\<lparr>events := [Request (PutObject ''my-bucket'' ''b.js'' None ''application/javascript'')],
             pending := [Put (PutObject ''my-bucket'' ''b.js'' None ''application/javascript'')]\<rparr>) \<and>
   fst (client_deploy_deploy store_api (CHR ''/'') (demo_serverless True (Some (Some (Some ''my-bucket'')))) demo_dist
          (demo_client, demo_world)) =
   fst (client_deploy_deploy store_api (CHR ''/'') (demo_serverless True (Some (Some (Some ''my-bucket'')))) Unstatable
          (demo_client, demo_world))"
proof -
  have js: "mime_lookup demo_types ''/srv/client/dist/b.js'' = ''application/javascript''"
    by (simp add: demo_types_def mime_lookup_def extension_def toLowerCase_def backslash_def)
  from filesystem_failures_are_not_reported[of 0
      "demo_world\<lparr>pending := [Stat ''/srv/client/dist/gone'' Unstatable, Stat ''/srv/client/dist/a.js'' (RegularFile ''a'')]\<rparr>"
      "''/srv/client/dist/gone''" store_api "CHR ''/''" demo_types demo_client "[]" "[]"
      "demo_serverless True (Some (Some (Some ''my-bucket'')))" demo_dist Unstatable]
  have 1: "step store_api (CHR ''/'') demo_types demo_client 0
     (demo_world\<lparr>pending := [Stat ''/srv/client/dist/gone'' Unstatable, Stat ''/srv/client/dist/a.js'' (RegularFile ''a'')]\<rparr>) =
     Some (demo_world\<lparr>events := [Uncaught TypeError], pending := []\<rparr>)"
    by (simp add: demo_world_def)
  from filesystem_failures_are_not_reported[of 0
      "demo_world\<lparr>pending := [ReadFile ''/srv/client/dist/b.js'' ''b.js'' UnreadableFile]\<rparr>"
      "''/srv/client/dist/b.js''" store_api "CHR ''/''" demo_types demo_client "''b.js''" "[]"
      "demo_serverless True (Some (Some (Some ''my-bucket'')))" demo_dist Unstatable]
  have 2: "step store_api (CHR ''/'') demo_types demo_client 0
     (demo_world\<lparr>pending := [ReadFile ''/srv/client/dist/b.js'' ''b.js'' UnreadableFile]\<rparr>) =
     Some (demo_world\<lparr>events := [Request (PutObject ''my-bucket'' ''b.js'' None ''application/javascript'')],
             pending := [Put (PutObject ''my-bucket'' ''b.js'' None ''application/javascript'')]\<rparr>)"
    by (simp add: demo_world_def demo_client_def js)
  from filesystem_failures_are_not_reported[of 0 demo_world "[]" store_api "CHR ''/''" demo_types demo_client "[]" "[]"
      "demo_serverless True (Some (Some (Some ''my-bucket'')))" demo_dist Unstatable]
  have 3: "fst (client_deploy_deploy store_api (CHR ''/'') (demo_serverless True (Some (Some (Some ''my-bucket'')))) demo_dist
          (demo_client, demo_world)) =
       fst (client_deploy_deploy store_api (CHR ''/'') (demo_serverless True (Some (Some (Some ''my-bucket'')))) Unstatable
          (demo_client, demo_world))"
    by simp
  from 1 2 3 show ?thesis by blast
qed

end
